theory Spec2Isabelle
  imports Main
begin

section \<open>Data model of the worker (pkg/nfd-worker/nfd-worker.go)\<close>

text \<open>
  \<^verbatim>\<open>type Labels map[string]string\<close>: a label set is a finite map from label
  names to label values.
\<close>

type_synonym Labels = "string \<rightharpoonup> string"

text \<open>
  The dynamic Go type of a feature source. \<^verbatim>\<open>getFeatureLabels\<close> inspects it with a
  type switch (\<^verbatim>\<open>case *local.Source\<close>), \<^verbatim>\<open>NewNfdWorker\<close> lists one object of
  each type.
\<close>

datatype source_type =
    cpu_Source | iommu_Source | kernel_Source | memory_Source | network_Source
  | pci_Source | storage_Source | system_Source | usb_Source | custom_Source
  | local_Source | fake_Source | panicfake_Source

text \<open>
  One call of \<^verbatim>\<open>source.Discover()\<close> either returns a feature map, or returns an
  error, or panics. The feature map is given as the list of its entries in the order
  in which \<^verbatim>\<open>range\<close> visits them (Go leaves that order open); a Go map has no
  repeated key. Errors and panic values are kept as their message text.
\<close>

datatype 'v discovery =
    Features "(string \<times> 'v) list"
  | Error string
  | Panic string

text \<open>
  A value of the interface \<^verbatim>\<open>source.FeatureSource\<close>: its dynamic type, the result of
  \<^verbatim>\<open>Name()\<close>, and \<^verbatim>\<open>Discover()\<close> as a function of the state \<open>'w\<close> of the node at
  the time of the call.
\<close>

record ('w, 'v) FeatureSource =
  stype :: source_type
  Name :: string
  Discover :: "'w \<Rightarrow> 'v discovery"

text \<open>
  The library functions \<^verbatim>\<open>getFeatureLabels\<close> calls and this repository does not
  define: \<^verbatim>\<open>validation.IsQualifiedName\<close> and \<^verbatim>\<open>validation.IsValidLabelValue\<close>
  (each returns the list of complaints, empty when the string is accepted) and
  \<^verbatim>\<open>fmt.Sprintf("%v", v)\<close>. They are parameters of the model.
\<close>

record 'v library =
  IsQualifiedName :: "string \<Rightarrow> string list"
  IsValidLabelValue :: "string \<Rightarrow> string list"
  Sprintf_v :: "'v \<Rightarrow> string"

text \<open>
  A compiled \<^verbatim>\<open>*regexp.Regexp\<close> is represented by its \<^verbatim>\<open>MatchString\<close>; the nil
  pointer is \<open>None\<close>.
\<close>

type_synonym Regexp = "string \<Rightarrow> bool"

section \<open>Feature aggregation\<close>

text \<open>
  \<^verbatim>\<open>strings.SplitN(k, "/", 2)\<close>: the key is cut at its first \<^verbatim>\<open>/\<close>, if it has one.
\<close>

definition SplitN2 :: "string \<Rightarrow> string list" where
  "SplitN2 k =
     (if CHR ''/'' \<in> set k
      then [takeWhile (\<lambda>c. c \<noteq> CHR ''/'') k, tl (dropWhile (\<lambda>c. c \<noteq> CHR ''/'') k)]
      else [k])"

text \<open>
  The three names the loop body of \<^verbatim>\<open>getFeatureLabels\<close> computes for a raw key:
  \<^verbatim>\<open>(label, nameForValidation, nameForWhiteListing)\<close>.
\<close>

definition labelNames :: "string \<Rightarrow> string \<Rightarrow> string \<times> string \<times> string" where
  "labelNames prefix k =
     (let split = SplitN2 k;
          label = prefix @ hd split;
          nameForValidation = ''ns/'' @ label;
          nameForWhiteListing = label
      in if length split = 2 then (k, k, split ! 1)
         else (label, nameForValidation, nameForWhiteListing))"

text \<open>
  What one iteration of the loop does with an entry: it leaves the label set alone
  (\<^verbatim>\<open>continue\<close>), stores one label, or panics (\<^verbatim>\<open>MatchString\<close> on a nil regexp).
\<close>

datatype iteration = Skip | Emit string string | Crash string

definition featureLabel ::
  "'v library \<Rightarrow> Regexp option \<Rightarrow> string \<Rightarrow> string \<Rightarrow> 'v \<Rightarrow> iteration" where
  "featureLabel X labelWhiteList prefix k v =
     (case labelNames prefix k of (label, nameForValidation, nameForWhiteListing) \<Rightarrow>
        if IsQualifiedName X nameForValidation \<noteq> [] then Skip
        else let val = Sprintf_v X v in
          if IsValidLabelValue X val \<noteq> [] then Skip
          else (case labelWhiteList of
                  None \<Rightarrow> Crash ''runtime error: invalid memory address or nil pointer dereference''
                | Some re \<Rightarrow> if \<not> re nameForWhiteListing then Skip else Emit label val))"

fun featuresLoop ::
  "'v library \<Rightarrow> Regexp option \<Rightarrow> string \<Rightarrow> (string \<times> 'v) list \<Rightarrow> Labels
     \<Rightarrow> Labels \<times> string option" where
  "featuresLoop X labelWhiteList prefix [] labels = (labels, None)"
| "featuresLoop X labelWhiteList prefix ((k, v) # features) labels =
     (case featureLabel X labelWhiteList prefix k v of
        Skip \<Rightarrow> featuresLoop X labelWhiteList prefix features labels
      | Emit label val \<Rightarrow> featuresLoop X labelWhiteList prefix features (labels(label \<mapsto> val))
      | Crash r \<Rightarrow> (labels, Some r))"

text \<open>
  \<^verbatim>\<open>getFeatureLabels(source, labelWhiteList) (labels Labels, err error)\<close>. The first
  component is \<open>None\<close> for a nil map. A panic is recovered by the deferred function,
  which sets \<^verbatim>\<open>err\<close> to \<^verbatim>\<open>fmt.Errorf("%v", r)\<close>; the named result \<^verbatim>\<open>labels\<close> then
  is the map built so far.
\<close>

definition getFeatureLabels ::
  "'v library \<Rightarrow> Regexp option \<Rightarrow> 'w \<Rightarrow> ('w, 'v) FeatureSource
     \<Rightarrow> Labels option \<times> string option" where
  "getFeatureLabels X labelWhiteList world source =
     (case Discover source world of
        Panic r \<Rightarrow> (Some Map.empty, Some r)
      | Error e \<Rightarrow> (None, Some e)
      | Features features \<Rightarrow>
          let prefix = (if stype source = local_Source then [] else Name source @ ''-'')
          in (case featuresLoop X labelWhiteList prefix features Map.empty of
                (labels, err) \<Rightarrow> (Some labels, err)))"

text \<open>
  \<^verbatim>\<open>createFeatureLabels(sources, labelWhiteList)\<close>: the sources are visited in order;
  a source whose \<^verbatim>\<open>getFeatureLabels\<close> returns an error is skipped (\<^verbatim>\<open>continue\<close>),
  the labels of any other are written into the result one by one.
\<close>

definition mergeSource ::
  "'v library \<Rightarrow> Regexp option \<Rightarrow> 'w \<Rightarrow> Labels \<Rightarrow> ('w, 'v) FeatureSource \<Rightarrow> Labels" where
  "mergeSource X labelWhiteList world labels source =
     (case getFeatureLabels X labelWhiteList world source of
        (_, Some err) \<Rightarrow> labels
      | (None, None) \<Rightarrow> labels
      | (Some labelsFromSource, None) \<Rightarrow> labels ++ labelsFromSource)"

definition createFeatureLabels ::
  "'v library \<Rightarrow> Regexp option \<Rightarrow> 'w \<Rightarrow> ('w, 'v) FeatureSource list \<Rightarrow> Labels" where
  "createFeatureLabels X labelWhiteList world sources =
     foldl (mergeSource X labelWhiteList world) Map.empty sources"


section \<open>Decoding the sources section of a configuration document\<close>

text \<open>
  \<^verbatim>\<open>type sourcesConfig map[string]source.Config\<close>. An entry is the configuration
  object a source has handed out with \<^verbatim>\<open>NewConfig()\<close> (a pointer to the source's own
  configuration struct), so decoding through \<^verbatim>\<open>&v\<close> in \<^verbatim>\<open>UnmarshalJSON\<close> changes the
  object the map entry refers to; the model stores the decoded object back under the
  key. The two uses of \<^verbatim>\<open>yaml.Unmarshal\<close> are parameters: \<open>rawParse\<close> reads the
  document into its per-source raw messages, listed in the order in which \<^verbatim>\<open>range\<close>
  visits them, and \<open>decode\<close> reads one raw message into a configuration object,
  returning the object as the decoder leaves it and the error, if any.
\<close>

type_synonym 'c sourcesConfig = "string \<rightharpoonup> 'c"




section \<open>The worker\<close>

text \<open>
  \<^verbatim>\<open>type Args struct\<close>. A \<^verbatim>\<open>time.Duration\<close> is a number of nanoseconds. The deprecated
  \<^verbatim>\<open>NoPublish *bool\<close> is \<open>NoPublish_arg\<close> here (the configuration has a field of the
  same name).
\<close>

record Args =
  LabelWhiteList :: string
  CaFile :: string
  CertFile :: string
  KeyFile :: string
  ConfigFile :: string
  Options :: string
  Oneshot :: bool
  Server :: string
  ServerNameOverride :: string
  SleepInterval :: int
  Sources :: "string list"
  NoPublish_arg :: "bool option"

definition Second :: int where
  "Second = 1000000000"

record coreConfig =
  NoPublish :: bool

record 'c NFDConfig =
  Core :: coreConfig
  Sources_config :: "'c sourcesConfig"

text \<open>
  The calls the worker makes to the gRPC library, in the order it makes them. A
  connection is known by a number; the \<^verbatim>\<open>pb.LabelerClient\<close> made from a connection is
  known by the number of that connection.
\<close>

type_synonym conn = nat

datatype call =
    DialContext_call string bool
  | Close_call conn
  | SetLabels_call conn Labels

text \<open>
  \<^verbatim>\<open>type nfdWorker struct\<close>. The field \<open>calls\<close> is not a field of the struct: it records
  the calls made so far, so that theorems can speak about them.
\<close>

record ('w, 'v, 'c) nfdWorker =
  args :: Args
  clientConn :: "conn option"
  client :: "conn option"
  configFilePath :: string
  config :: "'c NFDConfig"
  sources :: "('w, 'v) FeatureSource list"
  labelWhiteList :: "Regexp option"
  calls :: "call list"

text \<open>
  What the worker finds outside itself at one moment: the file system
  (\<^verbatim>\<open>ioutil.ReadFile\<close>, \<^verbatim>\<open>tls.LoadX509KeyPair\<close> with the error it returns,
  \<^verbatim>\<open>AppendCertsFromPEM\<close>), the YAML decoder applied to a configuration (the
  configuration as the decoder leaves it, and the error), the result of
  \<^verbatim>\<open>NewConfig()\<close> of a source, the outcome of \<^verbatim>\<open>grpc.DialContext\<close> for a server
  address with or without TLS, the outcome of the \<^verbatim>\<open>SetLabels\<close> call, the outcome of
  \<^verbatim>\<open>addConfigWatch\<close> (the watched paths and the error), \<^verbatim>\<open>filepath.Clean\<close>, and the
  state of the node that discovery reads.
\<close>

record ('w, 'v, 'c) outside =
  ReadFile :: "string \<Rightarrow> string + string"
  LoadX509KeyPair :: "string \<Rightarrow> string \<Rightarrow> string option"
  AppendCertsFromPEM :: "string \<Rightarrow> bool"
  yaml_Unmarshal :: "string \<Rightarrow> 'c NFDConfig \<Rightarrow> 'c NFDConfig \<times> string option"
  NewConfig :: "('w, 'v) FeatureSource \<Rightarrow> 'c"
  DialContext :: "string \<Rightarrow> bool \<Rightarrow> string + conn"
  SetLabels :: "conn \<Rightarrow> Labels \<Rightarrow> string option"
  addConfigWatch :: "string \<Rightarrow> string set \<times> string option"
  Clean :: "string \<Rightarrow> string"
  node :: 'w

subsection \<open>NewNfdWorker\<close>

text \<open>
  The parts of \<^verbatim>\<open>NewNfdWorker\<close> that come from elsewhere: the source objects of each
  type (\<^verbatim>\<open>&cpu.Source{}\<close> and so on), \<^verbatim>\<open>filepath.Clean\<close>, \<^verbatim>\<open>strings.TrimSpace\<close> and
  \<^verbatim>\<open>regexp.Compile\<close>.
\<close>

record ('w, 'v) packages =
  new_Source :: "source_type \<Rightarrow> ('w, 'v) FeatureSource"
  filepath_Clean :: "string \<Rightarrow> string"
  TrimSpace :: "string \<Rightarrow> string"
  Compile :: "string \<Rightarrow> string + Regexp"

datatype warning =
    TooShortSleepInterval int
  | UnknownSources "string set"

definition allSources :: "source_type list" where
  "allSources =
     [cpu_Source, iommu_Source, kernel_Source, memory_Source, network_Source, pci_Source,
      storage_Source, system_Source, usb_Source, custom_Source, local_Source]"

text \<open>
  The loop over \<^verbatim>\<open>allSources\<close> that picks the sources named in \<^verbatim>\<open>--sources\<close>: a
  source whose name is in the whitelist is appended and its name removed from the
  whitelist.
\<close>

fun enableSources ::
  "('w, 'v) FeatureSource list \<Rightarrow> string set \<Rightarrow> ('w, 'v) FeatureSource list
     \<Rightarrow> ('w, 'v) FeatureSource list \<times> string set" where
  "enableSources [] sourceWhiteList enabled = (enabled, sourceWhiteList)"
| "enableSources (s # rest) sourceWhiteList enabled =
     (if Name s \<in> sourceWhiteList
      then enableSources rest (sourceWhiteList - {Name s}) (enabled @ [s])
      else enableSources rest sourceWhiteList enabled)"

text \<open>
  \<^verbatim>\<open>NewNfdWorker(args Args) (NfdWorker, error)\<close>, with the warnings it logs. The struct
  \<^verbatim>\<open>nfd\<close> is built first and receives a copy of \<^verbatim>\<open>args\<close>; the later assignment
  \<^verbatim>\<open>args.SleepInterval = time.Second\<close> changes the parameter \<^verbatim>\<open>args\<close> (here \<open>args'\<close>),
  which the rest of the function reads, and not the copy in \<^verbatim>\<open>nfd.args\<close>.
\<close>

definition NewNfdWorker ::
  "('w, 'v) packages \<Rightarrow> Args \<Rightarrow> (('w, 'v, 'c) nfdWorker \<times> string option) \<times> warning list" where
  "NewNfdWorker P a =
     (let nfd = \<lparr>args = a, clientConn = None, client = None, configFilePath = [],
                 config = \<lparr>Core = \<lparr>NoPublish = False\<rparr>, Sources_config = Map.empty\<rparr>,
                 sources = [], labelWhiteList = None, calls = []\<rparr>;
          nfd = (if ConfigFile a \<noteq> [] then nfd\<lparr>configFilePath := filepath_Clean P (ConfigFile a)\<rparr>
                 else nfd);
          short = (0 < SleepInterval a \<and> SleepInterval a < Second);
          log1 = (if short then [TooShortSleepInterval (SleepInterval a)] else []);
          args' = (if short then a\<lparr>SleepInterval := Second\<rparr> else a)
      in if (CertFile args' \<noteq> [] \<or> KeyFile args' \<noteq> [] \<or> CaFile args' \<noteq> [])
            \<and> CertFile args' = []
         then ((nfd, Some ''--cert-file needs to be specified alongside --key-file and --ca-file''), log1)
         else if (CertFile args' \<noteq> [] \<or> KeyFile args' \<noteq> [] \<or> CaFile args' \<noteq> [])
            \<and> KeyFile args' = []
         then ((nfd, Some ''--key-file needs to be specified alongside --cert-file and --ca-file''), log1)
         else if (CertFile args' \<noteq> [] \<or> KeyFile args' \<noteq> [] \<or> CaFile args' \<noteq> [])
            \<and> CaFile args' = []
         then ((nfd, Some ''--ca-file needs to be specified alongside --cert-file and --key-file''), log1)
         else
           let (enabled, log2) =
                 (if length (Sources args') = 1 \<and> Sources args' ! 0 = ''all''
                  then (map (new_Source P) allSources, [])
                  else
                    let all = map (new_Source P) (allSources @ [fake_Source, panicfake_Source]);
                        sourceWhiteList = set (map (TrimSpace P) (Sources args'));
                        (enabled, rest) = enableSources all sourceWhiteList []
                    in (enabled, if rest \<noteq> {} then [UnknownSources rest] else []));
               nfd = nfd\<lparr>sources := enabled\<rparr>
           in (case Compile P (LabelWhiteList args') of
                 Inl err \<Rightarrow>
                   ((nfd, Some (''error parsing label whitelist regex ('' @ LabelWhiteList args'
                                  @ ''): '' @ err)), log1 @ log2)
               | Inr re \<Rightarrow> ((nfd\<lparr>labelWhiteList := Some re\<rparr>, None), log1 @ log2)))"

subsection \<open>The connection\<close>

text \<open>
  \<^verbatim>\<open>func (w *nfdWorker) connect() error\<close>: the error, if any, and the worker as the
  call leaves it.
\<close>

definition dial ::
  "('w, 'v, 'c) outside \<Rightarrow> bool \<Rightarrow> ('w, 'v, 'c) nfdWorker
     \<Rightarrow> string option \<times> ('w, 'v, 'c) nfdWorker" where
  "dial E tls w =
     (let w = w\<lparr>calls := calls w @ [DialContext_call (Server (args w)) tls]\<rparr>
      in case DialContext E (Server (args w)) tls of
           Inl err \<Rightarrow> (Some err, w)
         | Inr c \<Rightarrow> (None, w\<lparr>clientConn := Some c, client := Some c\<rparr>))"

definition connect ::
  "('w, 'v, 'c) outside \<Rightarrow> ('w, 'v, 'c) nfdWorker
     \<Rightarrow> string option \<times> ('w, 'v, 'c) nfdWorker" where
  "connect E w =
     (if NoPublish (Core (config w)) then (None, w)
      else if clientConn w \<noteq> None then (Some ''client connection already exists'', w)
      else if CaFile (args w) \<noteq> [] \<or> CertFile (args w) \<noteq> [] \<or> KeyFile (args w) \<noteq> [] then
        (case LoadX509KeyPair E (CertFile (args w)) (KeyFile (args w)) of
           Some err \<Rightarrow> (Some (''failed to load client certificate: '' @ err), w)
         | None \<Rightarrow>
             (case ReadFile E (CaFile (args w)) of
                Inl err \<Rightarrow> (Some (''failed to read root certificate file: '' @ err), w)
              | Inr caCert \<Rightarrow>
                  if \<not> AppendCertsFromPEM E caCert
                  then (Some (''failed to add certificate from '' @ [CHR 0x27] @ CaFile (args w)
                                @ [CHR 0x27]), w)
                  else dial E True w))
      else dial E False w)"

text \<open>\<^verbatim>\<open>func (w *nfdWorker) disconnect()\<close>.\<close>

definition disconnect :: "('w, 'v, 'c) nfdWorker \<Rightarrow> ('w, 'v, 'c) nfdWorker" where
  "disconnect w =
     (let w = (case clientConn w of
                 Some c \<Rightarrow> w\<lparr>calls := calls w @ [Close_call c]\<rparr>
               | None \<Rightarrow> w)
      in w\<lparr>clientConn := None, client := None\<rparr>)"

subsection \<open>Configuration\<close>

text \<open>
  \<^verbatim>\<open>func (w *nfdWorker) configure(filepath string, overrides string)\<close>. A decoder that
  fails leaves the configuration as far as it got; the error is only logged. Handing
  the new sections to the sources (\<^verbatim>\<open>SetConfig\<close>) changes the sources, not the worker.
\<close>

definition configure ::
  "('w, 'v, 'c) outside \<Rightarrow> string \<Rightarrow> string \<Rightarrow> ('w, 'v, 'c) nfdWorker
     \<Rightarrow> ('w, 'v, 'c) nfdWorker" where
  "configure E filepath overrides w =
     (let c = \<lparr>Core = \<lparr>NoPublish = False\<rparr>,
               Sources_config = foldl (\<lambda>m s. m(Name s \<mapsto> NewConfig E s)) Map.empty (sources w)\<rparr>;
          c = (case ReadFile E filepath of
                 Inl err \<Rightarrow> c
               | Inr data \<Rightarrow> fst (yaml_Unmarshal E data c));
          c = fst (yaml_Unmarshal E overrides c);
          c = (case NoPublish_arg (args w) of
                 Some b \<Rightarrow> c\<lparr>Core := (Core c)\<lparr>NoPublish := b\<rparr>\<rparr>
               | None \<Rightarrow> c)
      in w\<lparr>config := c\<rparr>)"

subsection \<open>Run\<close>

text \<open>
  The variables of the loop in \<^verbatim>\<open>Run\<close>. A timer channel made by \<^verbatim>\<open>time.After(d)\<close>
  that has not delivered yet is \<open>Some d\<close>; a channel that will never deliver (nil, or
  a timer channel whose tick has been received) is \<open>None\<close>.
\<close>

record ('w, 'v, 'c) loop_state =
  worker :: "('w, 'v, 'c) nfdWorker"
  labelTrigger :: "int option"
  configTrigger :: "int option"
  paths :: "string set"

text \<open>The four cases of the \<^verbatim>\<open>select\<close>.\<close>

datatype event = LabelTimer | WatchEvent string | WatchError string | ConfigTimer

text \<open>
  One turn of the loop: the loop goes on, or \<^verbatim>\<open>Run\<close> returns (its error, and the
  worker after the deferred \<^verbatim>\<open>disconnect\<close>), or the case cannot be chosen because its
  channel delivers nothing.
\<close>

datatype ('w, 'v, 'c) outcome =
    Continue "('w, 'v, 'c) loop_state"
  | Return "string option" "('w, 'v, 'c) nfdWorker"
  | NotReady

definition labelCase ::
  "'v library \<Rightarrow> ('w, 'v, 'c) outside \<Rightarrow> ('w, 'v, 'c) loop_state \<Rightarrow> ('w, 'v, 'c) outcome" where
  "labelCase X E s =
     (let w = worker s;
          labels = createFeatureLabels X (labelWhiteList w) (node E) (sources w);
          (err, w) = (case client w of
                        Some cl \<Rightarrow> (SetLabels E cl labels,
                                    w\<lparr>calls := calls w @ [SetLabels_call cl labels]\<rparr>)
                      | None \<Rightarrow> (None, w))
      in case err of
           Some e \<Rightarrow> Return (Some (''failed to advertise labels: '' @ e)) (disconnect w)
         | None \<Rightarrow>
             if Oneshot (args w) then Return None (disconnect w)
             else if 0 < SleepInterval (args w)
             then Continue (s\<lparr>worker := w, labelTrigger := Some (SleepInterval (args w))\<rparr>)
             else Continue (s\<lparr>worker := w, labelTrigger := None\<rparr>))"

definition watchCase ::
  "('w, 'v, 'c) outside \<Rightarrow> string \<Rightarrow> ('w, 'v, 'c) loop_state \<Rightarrow> ('w, 'v, 'c) outcome" where
  "watchCase E eName s =
     (let name = Clean E eName
      in if name \<in> paths s then
           (case addConfigWatch E (configFilePath (worker s)) of
              (paths', Some err) \<Rightarrow> Return (Some err) (disconnect (worker s))
            | (paths', None) \<Rightarrow> Continue (s\<lparr>paths := paths', configTrigger := Some Second\<rparr>))
         else Continue s)"

definition configCase ::
  "('w, 'v, 'c) outside \<Rightarrow> ('w, 'v, 'c) loop_state \<Rightarrow> ('w, 'v, 'c) outcome" where
  "configCase E s =
     (let w = configure E (configFilePath (worker s)) (Options (args (worker s))) (worker s);
          s = s\<lparr>configTrigger := None\<rparr>
      in if NoPublish (Core (config w))
         then Continue (s\<lparr>worker := disconnect w, labelTrigger := Some 0\<rparr>)
         else if clientConn w = None then
           (case connect E w of
              (Some err, w) \<Rightarrow> Return (Some err) (disconnect w)
            | (None, w) \<Rightarrow> Continue (s\<lparr>worker := w, labelTrigger := Some 0\<rparr>))
         else Continue (s\<lparr>worker := w, labelTrigger := Some 0\<rparr>))"

definition loop_step ::
  "'v library \<Rightarrow> ('w, 'v, 'c) outside \<Rightarrow> event \<Rightarrow> ('w, 'v, 'c) loop_state
     \<Rightarrow> ('w, 'v, 'c) outcome" where
  "loop_step X E ev s =
     (case ev of
        LabelTimer \<Rightarrow> if labelTrigger s = None then NotReady else labelCase X E s
      | WatchEvent eName \<Rightarrow> watchCase E eName s
      | WatchError e \<Rightarrow> Continue s
      | ConfigTimer \<Rightarrow> if configTrigger s = None then NotReady else configCase E s)"

text \<open>
  The loop, run on a schedule: the list of the events that arrive, each with what the
  worker finds outside at that moment. An event whose case cannot be chosen is passed
  over. When the schedule ends and \<^verbatim>\<open>Run\<close> has not returned, the result is the state
  of the loop.
\<close>

fun loop ::
  "'v library \<Rightarrow> (('w, 'v, 'c) outside \<times> event) list \<Rightarrow> ('w, 'v, 'c) loop_state
     \<Rightarrow> ('w, 'v, 'c) outcome" where
  "loop X [] s = Continue s"
| "loop X ((E, ev) # schedule) s =
     (case loop_step X E ev s of
        Continue s' \<Rightarrow> loop X schedule s'
      | Return err w \<Rightarrow> Return err w
      | NotReady \<Rightarrow> loop X schedule s)"

text \<open>
  \<^verbatim>\<open>func (w *nfdWorker) Run() error\<close>: the watcher is set up, the configuration is
  read, the connection is made (from here on \<^verbatim>\<open>disconnect\<close> is deferred), the label
  timer is set to fire at once, and the loop starts.
\<close>

definition Run ::
  "'v library \<Rightarrow> ('w, 'v, 'c) outside \<Rightarrow> (('w, 'v, 'c) outside \<times> event) list
     \<Rightarrow> ('w, 'v, 'c) nfdWorker \<Rightarrow> ('w, 'v, 'c) outcome" where
  "Run X E schedule w =
     (case addConfigWatch E (configFilePath w) of
        (paths', Some err) \<Rightarrow> Return (Some err) w
      | (paths', None) \<Rightarrow>
          let w = configure E (configFilePath w) (Options (args w)) w
          in (case connect E w of
                (Some err, w) \<Rightarrow> Return (Some (''failed to connect: '' @ err)) w
              | (None, w) \<Rightarrow>
                  loop X schedule
                    \<lparr>worker = w, labelTrigger = Some 0, configTrigger = None, paths = paths'\<rparr>))"

section \<open>Properties of the aggregation\<close>

lemma labelNames_plain:
  "CHR ''/'' \<notin> set k \<Longrightarrow> labelNames prefix k = (prefix @ k, ''ns/'' @ prefix @ k, prefix @ k)"
  by (simp add: labelNames_def SplitN2_def Let_def)

lemma labelNames_qualified:
  "CHR ''/'' \<in> set k \<Longrightarrow>
   labelNames prefix k = (k, k, tl (dropWhile (\<lambda>c. c \<noteq> CHR ''/'') k))"
  by (simp add: labelNames_def SplitN2_def Let_def)

lemma featureLabel_Emit_label:
  "featureLabel X wl p k v = Emit l x \<Longrightarrow> l = fst (labelNames p k)"
  by (auto simp: featureLabel_def Let_def split: prod.splits if_splits option.splits)

lemma featureLabel_Some_no_Crash:
  "featureLabel X (Some re) p k v \<noteq> Crash r"
  by (auto simp: featureLabel_def Let_def split: prod.splits if_splits)

lemma labelNames_inj:
  assumes "CHR ''/'' \<notin> set p" and "fst (labelNames p k) = fst (labelNames p k')"
  shows "k = k'"
proof (cases "CHR ''/'' \<in> set k")
  case True
  note k = this
  show ?thesis
  proof (cases "CHR ''/'' \<in> set k'")
    case True
    with k assms show ?thesis by (simp add: labelNames_qualified)
  next
    case False
    with k assms have "k = p @ k'" by (simp add: labelNames_qualified labelNames_plain)
    with k False assms(1) show ?thesis by auto
  qed
next
  case False
  note k = this
  show ?thesis
  proof (cases "CHR ''/'' \<in> set k'")
    case True
    with k assms have "p @ k = k'" by (simp add: labelNames_qualified labelNames_plain)
    with k True assms(1) show ?thesis by auto
  next
    case False
    with k assms show ?thesis by (simp add: labelNames_plain)
  qed
qed

lemma featuresLoop_no_error:
  "snd (featuresLoop X (Some re) p fs labels) = None"
proof (induction fs arbitrary: labels)
  case Nil
  show ?case by simp
next
  case (Cons e fs)
  obtain k v where e: "e = (k, v)" by (cases e)
  show ?case using Cons.IH
    by (cases "featureLabel X (Some re) p k v") (simp_all add: e featureLabel_Some_no_Crash)
qed

lemma featuresLoop_untouched:
  assumes "l \<notin> (\<lambda>e. fst (labelNames p (fst e))) ` set fs"
  shows "fst (featuresLoop X wl p fs labels) l = labels l"
  using assms
proof (induction fs arbitrary: labels)
  case Nil
  show ?case by simp
next
  case (Cons e fs)
  obtain k v where e: "e = (k, v)" by (cases e)
  have rest: "\<And>labels'. fst (featuresLoop X wl p fs labels') l = labels' l"
    using Cons by simp
  have hd: "fst (labelNames p k) \<noteq> l" using Cons.prems e by auto
  show ?case
  proof (cases "featureLabel X wl p k v")
    case Skip
    then show ?thesis using rest by (simp add: e)
  next
    case (Emit l' x)
    with hd have "l' \<noteq> l" using featureLabel_Emit_label by fastforce
    with Emit show ?thesis using rest [of "labels(l' \<mapsto> x)"] by (simp add: e)
  next
    case (Crash r)
    then show ?thesis by (simp add: e)
  qed
qed

lemma featuresLoop_lookup:
  assumes "distinct (map fst fs)" and "CHR ''/'' \<notin> set p" and "(k, v) \<in> set fs"
  shows "fst (featuresLoop X (Some re) p fs labels) (fst (labelNames p k)) =
         (case featureLabel X (Some re) p k v of
            Emit l x \<Rightarrow> Some x
          | _ \<Rightarrow> labels (fst (labelNames p k)))"
  using assms
proof (induction fs arbitrary: labels)
  case Nil
  then show ?case by simp
next
  case (Cons e fs)
  obtain k' v' where e: "e = (k', v')" by (cases e)
  let ?L = "fst (labelNames p k)"
  show ?case
  proof (cases "k' = k")
    case True
    with Cons.prems e have v: "v' = v" and notin: "k \<notin> fst ` set fs"
      by (auto simp: rev_image_eqI)
    have other: "?L \<notin> (\<lambda>e. fst (labelNames p (fst e))) ` set fs"
    proof
      assume "?L \<in> (\<lambda>e. fst (labelNames p (fst e))) ` set fs"
      then obtain e' where in_fs: "e' \<in> set fs"
        and eq: "fst (labelNames p (fst e')) = ?L" by auto
      from labelNames_inj [OF Cons.prems(2) eq] have "fst e' = k" .
      with in_fs notin show False by auto
    qed
    have rest: "\<And>labels'. fst (featuresLoop X (Some re) p fs labels') ?L = labels' ?L"
      using featuresLoop_untouched [OF other] by blast
    show ?thesis
    proof (cases "featureLabel X (Some re) p k v")
      case Skip
      then show ?thesis using rest by (simp add: e True v)
    next
      case (Emit l x)
      then have "l = ?L" by (rule featureLabel_Emit_label)
      with Emit show ?thesis using rest [of "labels(l \<mapsto> x)"] by (simp add: e True v)
    next
      case (Crash r)
      then show ?thesis by (simp add: featureLabel_Some_no_Crash)
    qed
  next
    case False
    with Cons.prems e have in_fs: "(k, v) \<in> set fs" and d: "distinct (map fst fs)" by auto
    have ne: "fst (labelNames p k') \<noteq> ?L"
      using labelNames_inj [OF Cons.prems(2)] False by blast
    note IH = Cons.IH [OF d Cons.prems(2) in_fs]
    show ?thesis
    proof (cases "featureLabel X (Some re) p k' v'")
      case Skip
      then show ?thesis using IH [of labels] by (simp add: e)
    next
      case (Emit l' x')
      then have "l' = fst (labelNames p k')" by (rule featureLabel_Emit_label)
      with ne have neq: "l' \<noteq> ?L" by simp
      have "fst (featuresLoop X (Some re) p (e # fs) labels) ?L =
            fst (featuresLoop X (Some re) p fs (labels(l' \<mapsto> x'))) ?L"
        using Emit by (simp add: e)
      also have "\<dots> = (case featureLabel X (Some re) p k v of
                          Emit l x \<Rightarrow> Some x
                        | _ \<Rightarrow> (labels(l' \<mapsto> x')) ?L)"
        by (rule IH)
      also have "\<dots> = (case featureLabel X (Some re) p k v of
                          Emit l x \<Rightarrow> Some x
                        | _ \<Rightarrow> labels ?L)"
        using neq by (simp split: iteration.splits)
      finally show ?thesis .
    next
      case (Crash r)
      then show ?thesis by (simp add: featureLabel_Some_no_Crash)
    qed
  qed
qed


lemma getFeatureLabels_Features:
  assumes "Discover s world = Features fs"
  shows "getFeatureLabels X (Some re) world s =
         (Some (fst (featuresLoop X (Some re)
                  (if stype s = local_Source then [] else Name s @ ''-'') fs Map.empty)), None)"
proof -
  let ?p = "if stype s = local_Source then [] else Name s @ ''-''"
  obtain labels err where r: "featuresLoop X (Some re) ?p fs Map.empty = (labels, err)"
    by (cases "featuresLoop X (Some re) ?p fs Map.empty")
  with featuresLoop_no_error [of X re ?p fs Map.empty] have "err = None" by simp
  with r assms show ?thesis by (simp add: getFeatureLabels_def)
qed

lemma featureLabel_plain:
  "CHR ''/'' \<notin> set k \<Longrightarrow>
   featureLabel X (Some re) p k v =
     (if IsQualifiedName X (''ns/'' @ p @ k) = [] \<and> IsValidLabelValue X (Sprintf_v X v) = []
         \<and> re (p @ k)
      then Emit (p @ k) (Sprintf_v X v) else Skip)"
  by (simp add: featureLabel_def labelNames_plain Let_def)

lemma featureLabel_qualified:
  "CHR ''/'' \<in> set k \<Longrightarrow>
   featureLabel X (Some re) p k v =
     (if IsQualifiedName X k = [] \<and> IsValidLabelValue X (Sprintf_v X v) = []
         \<and> re (tl (dropWhile (\<lambda>c. c \<noteq> CHR ''/'') k))
      then Emit k (Sprintf_v X v) else Skip)"
  by (simp add: featureLabel_def labelNames_qualified Let_def)

lemma prefix_no_slash:
  "stype s = local_Source \<or> CHR ''/'' \<notin> set (Name s) \<Longrightarrow>
   CHR ''/'' \<notin> set (if stype s = local_Source then [] else Name s @ ''-'')"
  by auto

lemma featuresLoop_keeps:
  "labels l \<noteq> None \<Longrightarrow> fst (featuresLoop X wl p fs labels) l \<noteq> None"
proof (induction fs arbitrary: labels)
  case Nil
  then show ?case by simp
next
  case (Cons e fs)
  obtain k v where e: "e = (k, v)" by (cases e)
  show ?case
  proof (cases "featureLabel X wl p k v")
    case Skip
    then show ?thesis using Cons by (simp add: e)
  next
    case (Emit l' x)
    have "(labels(l' \<mapsto> x)) l \<noteq> None" using Cons.prems by simp
    then have "fst (featuresLoop X wl p fs (labels(l' \<mapsto> x))) l \<noteq> None" by (rule Cons.IH)
    with Emit show ?thesis by (simp add: e del: fun_upd_apply)
  next
    case (Crash r)
    then show ?thesis using Cons.prems by (simp add: e)
  qed
qed

lemma featuresLoop_emits:
  assumes "(k, v) \<in> set fs" and "featureLabel X (Some re) p k v = Emit l x"
  shows "fst (featuresLoop X (Some re) p fs labels) l \<noteq> None"
  using assms(1)
proof (induction fs arbitrary: labels)
  case Nil
  then show ?case by simp
next
  case (Cons e fs)
  obtain k' v' where e: "e = (k', v')" by (cases e)
  show ?case
  proof (cases "e = (k, v)")
    case True
    have "(labels(l \<mapsto> x)) l \<noteq> None" by simp
    then have "fst (featuresLoop X (Some re) p fs (labels(l \<mapsto> x))) l \<noteq> None"
      by (rule featuresLoop_keeps)
    with True assms(2) show ?thesis by (simp del: fun_upd_apply)
  next
    case False
    with Cons.prems have in_fs: "(k, v) \<in> set fs" by simp
    show ?thesis
    proof (cases "featureLabel X (Some re) p k' v'")
      case Skip
      then show ?thesis using Cons.IH [OF in_fs] by (simp add: e)
    next
      case (Emit l' x')
      then show ?thesis using Cons.IH [OF in_fs, of "labels(l' \<mapsto> x')"]
        by (simp add: e del: fun_upd_apply)
    next
      case (Crash r)
      then show ?thesis by (simp add: featureLabel_Some_no_Crash)
    qed
  qed
qed

text \<open>
  C2. A raw key \<open>k\<close> without \<^verbatim>\<open>/\<close> is emitted under the name \<^verbatim>\<open>Name() + "-" + k\<close>, and
  under \<open>k\<close> itself when the source is the local source: when the entry passes the two
  validators and the whitelist, the result of \<^verbatim>\<open>getFeatureLabels\<close> has a label of
  that name. When moreover the feature map has no repeated key and the name of a
  source other than the local one has no \<^verbatim>\<open>/\<close> (so that no other key yields the same
  label), that name carries the rendered value of \<open>k\<close> if the entry passes, and nothing
  if it does not.
\<close>

theorem getFeatureLabels_plain_key_name:
  assumes "Discover s world = Features fs"
    and "(k, v) \<in> set fs"
    and "CHR ''/'' \<notin> set k"
  shows "\<exists>labels. getFeatureLabels X (Some re) world s = (Some labels, None) \<and>
           (let name = (if stype s = local_Source then k else Name s @ ''-'' @ k);
                passes = (IsQualifiedName X (''ns/'' @ name) = []
                            \<and> IsValidLabelValue X (Sprintf_v X v) = [] \<and> re name)
            in (passes \<longrightarrow> labels name \<noteq> None) \<and>
               (distinct (map fst fs) \<and> (stype s = local_Source \<or> CHR ''/'' \<notin> set (Name s)) \<longrightarrow>
                  labels name = (if passes then Some (Sprintf_v X v) else None)))"
proof -
  let ?p = "if stype s = local_Source then [] else Name s @ ''-''"
  let ?labels = "fst (featuresLoop X (Some re) ?p fs Map.empty)"
  let ?passes = "IsQualifiedName X (''ns/'' @ ?p @ k) = []
                   \<and> IsValidLabelValue X (Sprintf_v X v) = [] \<and> re (?p @ k)"
  have name: "(if stype s = local_Source then k else Name s @ ''-'' @ k) = ?p @ k" by simp
  have present: "?labels (?p @ k) \<noteq> None" if "?passes"
  proof -
    from that assms(3) have "featureLabel X (Some re) ?p k v = Emit (?p @ k) (Sprintf_v X v)"
      by (simp add: featureLabel_plain)
    with assms(2) show ?thesis by (rule featuresLoop_emits)
  qed
  have exact: "?labels (?p @ k) = (if ?passes then Some (Sprintf_v X v) else None)"
    if d: "distinct (map fst fs)" and n: "stype s = local_Source \<or> CHR ''/'' \<notin> set (Name s)"
  proof -
    have slash: "CHR ''/'' \<notin> set ?p" using n by (rule prefix_no_slash)
    have "?labels (fst (labelNames ?p k)) =
            (case featureLabel X (Some re) ?p k v of
               Emit l x \<Rightarrow> Some x | _ \<Rightarrow> Map.empty (fst (labelNames ?p k)))"
      using d slash assms(2) by (rule featuresLoop_lookup)
    then show ?thesis using assms(3) by (simp add: labelNames_plain featureLabel_plain)
  qed
  have "(?passes \<longrightarrow> ?labels (?p @ k) \<noteq> None) \<and>
        (distinct (map fst fs) \<and> (stype s = local_Source \<or> CHR ''/'' \<notin> set (Name s)) \<longrightarrow>
           ?labels (?p @ k) = (if ?passes then Some (Sprintf_v X v) else None))"
    using present exact by blast
  then show ?thesis
    unfolding getFeatureLabels_Features [OF assms(1), of X re] Let_def name by blast
qed

theorem getFeatureLabels_plain_key_name_witness:
  "\<exists>labels.
     getFeatureLabels
       \<lparr>IsQualifiedName = (\<lambda>n. []), IsValidLabelValue = (\<lambda>x. []), Sprintf_v = (\<lambda>x. x)\<rparr>
       (Some (\<lambda>n. True)) ()
       \<lparr>stype = cpu_Source, Name = ''cpu'',
        Discover = (\<lambda>w. Features [(''model'', ''x86_64''), (''example.com/rank'', ''3'')])\<rparr>
     = (Some labels, None) \<and> labels ''cpu-model'' = Some ''x86_64''"
proof -
  let ?s = "\<lparr>stype = cpu_Source, Name = ''cpu'',
      Discover = (\<lambda>w::unit. Features [(''model'', ''x86_64''), (''example.com/rank'', ''3'')])\<rparr>"
  let ?fs = "[(''model'', ''x86_64''), (''example.com/rank'', ''3'')]"
  have h1: "Discover ?s () = Features ?fs" by simp
  have h2: "(''model'', ''x86_64'') \<in> set ?fs" by simp
  have h3: "CHR ''/'' \<notin> set ''model''" by simp
  show ?thesis
    using getFeatureLabels_plain_key_name [OF h1 h2 h3,
        of "\<lparr>IsQualifiedName = (\<lambda>n. []), IsValidLabelValue = (\<lambda>x. []), Sprintf_v = (\<lambda>x. x)\<rparr>"
           "\<lambda>n. True"]
    by (simp add: Let_def) blast
qed

text \<open>
  C3. A raw key \<open>k\<close> that contains \<^verbatim>\<open>/\<close> is emitted under \<open>k\<close> itself, whatever the
  source, and the whitelist is asked about the part of \<open>k\<close> after its first \<^verbatim>\<open>/\<close> and
  about nothing else: when \<open>k\<close> is a qualified name, the value is a valid label value
  and the whitelist matches that part, the result of \<^verbatim>\<open>getFeatureLabels\<close> has the
  label \<open>k\<close>. When moreover the feature map has no repeated key and the name of a
  source other than the local one has no \<^verbatim>\<open>/\<close>, the label \<open>k\<close> carries the rendered
  value if the entry passes, and nothing if it does not.
\<close>

theorem getFeatureLabels_qualified_key_verbatim:
  assumes "Discover s world = Features fs"
    and "(k, v) \<in> set fs"
    and "CHR ''/'' \<in> set k"
  shows "\<exists>labels. getFeatureLabels X (Some re) world s = (Some labels, None) \<and>
           (let passes = (IsQualifiedName X k = [] \<and> IsValidLabelValue X (Sprintf_v X v) = []
                            \<and> re (tl (dropWhile (\<lambda>c. c \<noteq> CHR ''/'') k)))
            in (passes \<longrightarrow> labels k \<noteq> None) \<and>
               (distinct (map fst fs) \<and> (stype s = local_Source \<or> CHR ''/'' \<notin> set (Name s)) \<longrightarrow>
                  labels k = (if passes then Some (Sprintf_v X v) else None)))"
proof -
  let ?p = "if stype s = local_Source then [] else Name s @ ''-''"
  let ?labels = "fst (featuresLoop X (Some re) ?p fs Map.empty)"
  let ?passes = "IsQualifiedName X k = [] \<and> IsValidLabelValue X (Sprintf_v X v) = []
                   \<and> re (tl (dropWhile (\<lambda>c. c \<noteq> CHR ''/'') k))"
  have present: "?labels k \<noteq> None" if "?passes"
  proof -
    from that assms(3) have "featureLabel X (Some re) ?p k v = Emit k (Sprintf_v X v)"
      by (simp add: featureLabel_qualified)
    with assms(2) show ?thesis by (rule featuresLoop_emits)
  qed
  have exact: "?labels k = (if ?passes then Some (Sprintf_v X v) else None)"
    if d: "distinct (map fst fs)" and n: "stype s = local_Source \<or> CHR ''/'' \<notin> set (Name s)"
  proof -
    have slash: "CHR ''/'' \<notin> set ?p" using n by (rule prefix_no_slash)
    have "?labels (fst (labelNames ?p k)) =
            (case featureLabel X (Some re) ?p k v of
               Emit l x \<Rightarrow> Some x | _ \<Rightarrow> Map.empty (fst (labelNames ?p k)))"
      using d slash assms(2) by (rule featuresLoop_lookup)
    then show ?thesis using assms(3) by (simp add: labelNames_qualified featureLabel_qualified)
  qed
  have "(?passes \<longrightarrow> ?labels k \<noteq> None) \<and>
        (distinct (map fst fs) \<and> (stype s = local_Source \<or> CHR ''/'' \<notin> set (Name s)) \<longrightarrow>
           ?labels k = (if ?passes then Some (Sprintf_v X v) else None))"
    using present exact by blast
  then show ?thesis
    unfolding getFeatureLabels_Features [OF assms(1), of X re] Let_def by blast
qed

theorem getFeatureLabels_qualified_key_verbatim_witness:
  "\<exists>labels.
     getFeatureLabels
       \<lparr>IsQualifiedName = (\<lambda>n. []), IsValidLabelValue = (\<lambda>x. []), Sprintf_v = (\<lambda>x. x)\<rparr>
       (Some (\<lambda>n. n = ''rank'')) ()
       \<lparr>stype = cpu_Source, Name = ''cpu'',
        Discover = (\<lambda>w. Features [(''model'', ''x86_64''), (''example.com/rank'', ''3'')])\<rparr>
     = (Some labels, None) \<and> labels ''example.com/rank'' = Some ''3''"
proof -
  let ?s = "\<lparr>stype = cpu_Source, Name = ''cpu'',
      Discover = (\<lambda>w::unit. Features [(''model'', ''x86_64''), (''example.com/rank'', ''3'')])\<rparr>"
  let ?fs = "[(''model'', ''x86_64''), (''example.com/rank'', ''3'')]"
  have h1: "Discover ?s () = Features ?fs" by simp
  have h2: "(''example.com/rank'', ''3'') \<in> set ?fs" by simp
  have h3: "CHR ''/'' \<in> set ''example.com/rank''" by simp
  show ?thesis
    using getFeatureLabels_qualified_key_verbatim [OF h1 h2 h3,
        of "\<lparr>IsQualifiedName = (\<lambda>n. []), IsValidLabelValue = (\<lambda>x. []), Sprintf_v = (\<lambda>x. x)\<rparr>"
           "\<lambda>n. n = ''rank''"]
    by (simp add: Let_def) blast
qed

lemmas aggregation_defs =
  createFeatureLabels_def mergeSource_def getFeatureLabels_def featureLabel_def
  labelNames_def SplitN2_def Let_def





lemma mergeSource_failed:
  "snd (getFeatureLabels X wl world s) \<noteq> None \<Longrightarrow> mergeSource X wl world labels s = labels"
  by (auto simp: mergeSource_def split: prod.splits option.splits)

text \<open>
  C1. A source whose discovery returns an error or panics makes \<^verbatim>\<open>getFeatureLabels\<close>
  return an error (the panic value, recovered, as the error), and
  \<^verbatim>\<open>createFeatureLabels\<close> then yields what it yields on the list without that
  source: the failing source adds nothing, and what the sources before and after it
  add is all there.
\<close>

theorem createFeatureLabels_isolates_failing_source:
  "(Discover s world = Error e \<longrightarrow> getFeatureLabels X wl world s = (None, Some e)) \<and>
   (Discover s world = Panic r \<longrightarrow> getFeatureLabels X wl world s = (Some Map.empty, Some r)) \<and>
   (snd (getFeatureLabels X wl world s) \<noteq> None \<longrightarrow>
      createFeatureLabels X wl world (before @ s # after) =
      createFeatureLabels X wl world (before @ after))"
  by (simp add: getFeatureLabels_def createFeatureLabels_def mergeSource_failed)

theorem createFeatureLabels_isolates_failing_source_witness:
  "getFeatureLabels
     \<lparr>IsQualifiedName = (\<lambda>n. []), IsValidLabelValue = (\<lambda>x. []), Sprintf_v = (\<lambda>x. x)\<rparr>
     (Some (\<lambda>n. True)) ()
     \<lparr>stype = panicfake_Source, Name = ''panic_fake'', Discover = (\<lambda>w. Panic ''boom'')\<rparr>
   = (Some Map.empty, Some ''boom'') \<and>
   createFeatureLabels
     \<lparr>IsQualifiedName = (\<lambda>n. []), IsValidLabelValue = (\<lambda>x. []), Sprintf_v = (\<lambda>x. x)\<rparr>
     (Some (\<lambda>n. True)) ()
     [\<lparr>stype = cpu_Source, Name = ''cpu'', Discover = (\<lambda>w. Features [(''model'', ''x86_64'')])\<rparr>,
      \<lparr>stype = panicfake_Source, Name = ''panic_fake'', Discover = (\<lambda>w. Panic ''boom'')\<rparr>,
      \<lparr>stype = pci_Source, Name = ''pci'', Discover = (\<lambda>w. Features [(''0300'', ''true'')])\<rparr>]
   = [''cpu-model'' \<mapsto> ''x86_64'', ''pci-0300'' \<mapsto> ''true'']"
proof -
  let ?X = "\<lparr>IsQualifiedName = (\<lambda>n. []), IsValidLabelValue = (\<lambda>x. []),
             Sprintf_v = (\<lambda>x::string. x)\<rparr>"
  let ?bad = "\<lparr>stype = panicfake_Source, Name = ''panic_fake'',
               Discover = (\<lambda>w::unit. (Panic ''boom'' :: string discovery))\<rparr>"
  let ?cpu = "\<lparr>stype = cpu_Source, Name = ''cpu'',
               Discover = (\<lambda>w::unit. Features [(''model'', ''x86_64'')])\<rparr>"
  let ?pci = "\<lparr>stype = pci_Source, Name = ''pci'',
               Discover = (\<lambda>w::unit. Features [(''0300'', ''true'')])\<rparr>"
  note iso = createFeatureLabels_isolates_failing_source
      [of ?bad "()" "''x''" ?X "Some (\<lambda>n. True)" "''boom''" "[?cpu]" "[?pci]"]
  have p: "Discover ?bad () = Panic ''boom''" by simp
  from iso p have g: "getFeatureLabels ?X (Some (\<lambda>n. True)) () ?bad = (Some Map.empty, Some ''boom'')"
    by blast
  then have "snd (getFeatureLabels ?X (Some (\<lambda>n. True)) () ?bad) \<noteq> None" by simp
  with iso have "createFeatureLabels ?X (Some (\<lambda>n. True)) () ([?cpu] @ ?bad # [?pci]) =
                 createFeatureLabels ?X (Some (\<lambda>n. True)) () ([?cpu] @ [?pci])"
    by blast
  moreover have "createFeatureLabels ?X (Some (\<lambda>n. True)) () ([?cpu] @ [?pci]) =
                 [''cpu-model'' \<mapsto> ''x86_64'', ''pci-0300'' \<mapsto> ''true'']"
    by (simp add: aggregation_defs)
  ultimately show ?thesis using g by simp
qed




section \<open>Properties of the decoding of the sources section\<close>






section \<open>Properties of the worker\<close>

lemmas worker_defs =
  Run_def loop_step_def labelCase_def watchCase_def configCase_def configure_def
  connect_def dial_def disconnect_def Second_def Let_def

text \<open>
  C8. \<^verbatim>\<open>connect\<close> in dry-run returns no error and leaves the worker as it is (no
  call is made). Out of dry-run, with a connection in place, it returns the error
  \<^verbatim>\<open>client connection already exists\<close>. Out of dry-run and without a connection,
  when the dial is reached (no TLS material is configured, or all of it loads) and
  fails, the error of the dial is returned and the worker is as before but for the
  record of the call. Whenever \<^verbatim>\<open>connect\<close> returns an error, the connection and the
  client of the worker are what they were.
\<close>

theorem connect_contract:
  "(NoPublish (Core (config w)) \<longrightarrow> connect E w = (None, w)) \<and>
   (\<not> NoPublish (Core (config w)) \<and> clientConn w \<noteq> None \<longrightarrow>
      connect E w = (Some ''client connection already exists'', w)) \<and>
   (\<not> NoPublish (Core (config w)) \<and> clientConn w = None \<and>
    tls = (CaFile (args w) \<noteq> [] \<or> CertFile (args w) \<noteq> [] \<or> KeyFile (args w) \<noteq> []) \<and>
    (tls \<longrightarrow> LoadX509KeyPair E (CertFile (args w)) (KeyFile (args w)) = None \<and>
            ReadFile E (CaFile (args w)) = Inr caCert \<and> AppendCertsFromPEM E caCert) \<and>
    DialContext E (Server (args w)) tls = Inl err \<longrightarrow>
      connect E w = (Some err, w\<lparr>calls := calls w @ [DialContext_call (Server (args w)) tls]\<rparr>)) \<and>
   (fst (connect E w) \<noteq> None \<longrightarrow>
      clientConn (snd (connect E w)) = clientConn w \<and> client (snd (connect E w)) = client w)"
  by (auto simp: connect_def dial_def Let_def split: option.splits sum.splits)


theorem connect_contract_witness:
  "let E = \<lparr>ReadFile = (\<lambda>p. Inl ''no such file''), LoadX509KeyPair = (\<lambda>c k. None),
             AppendCertsFromPEM = (\<lambda>p. True),
             yaml_Unmarshal = (\<lambda>d (c::unit NFDConfig). (c, None)),
             NewConfig = (\<lambda>s::(unit, string) FeatureSource. ()),
             DialContext = (\<lambda>a t. Inl ''context deadline exceeded''),
             SetLabels = (\<lambda>c l. None), addConfigWatch = (\<lambda>p. ({p}, None)),
             Clean = (\<lambda>p. p), node = ()\<rparr>;
       idle = \<lparr>args = \<lparr>LabelWhiteList = [], CaFile = [], CertFile = [], KeyFile = [],
                  ConfigFile = [], Options = [], Oneshot = False,
                  Server = ''nfd-master:8080'', ServerNameOverride = [], SleepInterval = 0,
                  Sources = [''all''], NoPublish_arg = None\<rparr>,
                clientConn = None, client = None, configFilePath = [],
                config = \<lparr>Core = \<lparr>NoPublish = False\<rparr>, Sources_config = Map.empty\<rparr>,
                sources = [], labelWhiteList = None, calls = []\<rparr>;
       dry = idle\<lparr>config := \<lparr>Core = \<lparr>NoPublish = True\<rparr>, Sources_config = Map.empty\<rparr>\<rparr>;
       connected = idle\<lparr>clientConn := Some 1, client := Some 1\<rparr>
   in connect E dry = (None, dry) \<and>
      connect E connected = (Some ''client connection already exists'', connected) \<and>
      connect E idle =
        (Some ''context deadline exceeded'',
         idle\<lparr>calls := [DialContext_call ''nfd-master:8080'' False]\<rparr>)"
proof -
  let ?E = "\<lparr>ReadFile = (\<lambda>p. Inl ''no such file''), LoadX509KeyPair = (\<lambda>c k. None),
      AppendCertsFromPEM = (\<lambda>p. True),
      yaml_Unmarshal = (\<lambda>d (c::unit NFDConfig). (c, None)),
      NewConfig = (\<lambda>s::(unit, string) FeatureSource. ()),
      DialContext = (\<lambda>a t. Inl ''context deadline exceeded''),
      SetLabels = (\<lambda>c l. None), addConfigWatch = (\<lambda>p. ({p}, None)), Clean = (\<lambda>p. p),
      node = ()\<rparr>"
  let ?idle = "\<lparr>args = \<lparr>LabelWhiteList = [], CaFile = [], CertFile = [], KeyFile = [],
                  ConfigFile = [], Options = [], Oneshot = False,
                  Server = ''nfd-master:8080'', ServerNameOverride = [], SleepInterval = 0,
                  Sources = [''all''], NoPublish_arg = None\<rparr>,
                clientConn = None, client = None, configFilePath = [],
                config = \<lparr>Core = \<lparr>NoPublish = False\<rparr>, Sources_config = Map.empty\<rparr>,
                sources = [], labelWhiteList = None, calls = []\<rparr>
      :: (unit, string, unit) nfdWorker"
  let ?dry = "?idle\<lparr>config := \<lparr>Core = \<lparr>NoPublish = True\<rparr>, Sources_config = Map.empty\<rparr>\<rparr>"
  let ?connected = "?idle\<lparr>clientConn := Some 1, client := Some 1\<rparr>"
  have d: "NoPublish (Core (config ?dry))" by simp
  with connect_contract [where w = ?dry and E = ?E]
  have 1: "connect ?E ?dry = (None, ?dry)" by blast
  have c: "\<not> NoPublish (Core (config ?connected)) \<and> clientConn ?connected \<noteq> None" by simp
  with connect_contract [where w = ?connected and E = ?E]
  have 2: "connect ?E ?connected = (Some ''client connection already exists'', ?connected)"
    by blast
  have i: "\<not> NoPublish (Core (config ?idle)) \<and> clientConn ?idle = None \<and>
    False = (CaFile (args ?idle) \<noteq> [] \<or> CertFile (args ?idle) \<noteq> [] \<or> KeyFile (args ?idle) \<noteq> []) \<and>
    (False \<longrightarrow> LoadX509KeyPair ?E (CertFile (args ?idle)) (KeyFile (args ?idle)) = None \<and>
            ReadFile ?E (CaFile (args ?idle)) = Inr [] \<and> AppendCertsFromPEM ?E []) \<and>
    DialContext ?E (Server (args ?idle)) False = Inl ''context deadline exceeded''"
    by simp
  with connect_contract [where w = ?idle and E = ?E and tls = False and caCert = "[]"
      and err = "''context deadline exceeded''"]
  have "connect ?E ?idle = (Some ''context deadline exceeded'',
          ?idle\<lparr>calls := calls ?idle @ [DialContext_call (Server (args ?idle)) False]\<rparr>)"
    by blast
  then have 3: "connect ?E ?idle = (Some ''context deadline exceeded'',
          ?idle\<lparr>calls := [DialContext_call ''nfd-master:8080'' False]\<rparr>)"
    by simp
  from 1 2 3 show ?thesis by (simp add: Let_def)
qed


text \<open>
  C10, on the code. The worker that \<^verbatim>\<open>NewNfdWorker\<close> returns holds the arguments as
  they were passed, the sleep interval included: for an interval between zero and one
  second the warning is logged, and the interval of the worker is still the one
  requested.
\<close>

theorem NewNfdWorker_keeps_requested_interval:
  "args (fst (fst (NewNfdWorker P a))) = a \<and>
   (0 < SleepInterval a \<and> SleepInterval a < Second \<longrightarrow>
      TooShortSleepInterval (SleepInterval a) \<in> set (snd (NewNfdWorker P a)))"
  by (auto simp: NewNfdWorker_def Let_def split: sum.splits prod.splits)

theorem NewNfdWorker_keeps_requested_interval_witness:
  "let P = \<lparr>new_Source = (\<lambda>t. \<lparr>stype = t,
                  Name = (if t = local_Source then ''local'' else ''other''),
                  Discover = (\<lambda>w::unit. (Features [] :: string discovery))\<rparr>),
             filepath_Clean = (\<lambda>p. p), TrimSpace = (\<lambda>n. n),
             Compile = (\<lambda>p. Inr (\<lambda>n. True))\<rparr>;
       a = \<lparr>LabelWhiteList = [], CaFile = [], CertFile = [], KeyFile = [],
             ConfigFile = ''/etc/nfd-worker.conf'', Options = [], Oneshot = False,
             Server = ''nfd-master:8080'', ServerNameOverride = [], SleepInterval = 500000000,
             Sources = [''local''], NoPublish_arg = None\<rparr>;
       r = (NewNfdWorker P a
              :: ((unit, string, unit) nfdWorker \<times> string option) \<times> warning list)
   in SleepInterval (args (fst (fst r))) = 500000000 \<and>
      TooShortSleepInterval 500000000 \<in> set (snd r)"
proof -
  let ?P = "\<lparr>new_Source = (\<lambda>t. \<lparr>stype = t,
                  Name = (if t = local_Source then ''local'' else ''other''),
                  Discover = (\<lambda>w::unit. (Features [] :: string discovery))\<rparr>),
      filepath_Clean = (\<lambda>p. p), TrimSpace = (\<lambda>n. n), Compile = (\<lambda>p. Inr (\<lambda>n. True))\<rparr>"
  let ?a = "\<lparr>LabelWhiteList = [], CaFile = [], CertFile = [], KeyFile = [],
      ConfigFile = ''/etc/nfd-worker.conf'', Options = [], Oneshot = False,
      Server = ''nfd-master:8080'', ServerNameOverride = [], SleepInterval = 500000000,
      Sources = [''local''], NoPublish_arg = None\<rparr>"
  let ?r = "NewNfdWorker ?P ?a
              :: ((unit, string, unit) nfdWorker \<times> string option) \<times> warning list"
  have h: "0 < SleepInterval ?a \<and> SleepInterval ?a < Second" by (simp add: Second_def)
  from NewNfdWorker_keeps_requested_interval [of ?P ?a] h
  have "args (fst (fst ?r)) = ?a"
    and "TooShortSleepInterval (SleepInterval ?a) \<in> set (snd ?r)"
    by blast+
  then show ?thesis by (simp add: Let_def)
qed

lemma disconnect_args: "args (disconnect w) = args w"
  by (simp add: disconnect_def Let_def split: option.splits)

lemma disconnect_config: "config (disconnect w) = config w"
  by (simp add: disconnect_def Let_def split: option.splits)

lemma disconnect_conn: "clientConn (disconnect w) = None \<and> client (disconnect w) = None"
  by (simp add: disconnect_def Let_def split: option.splits)

lemma disconnect_calls:
  "calls (disconnect w) =
     (case clientConn w of Some c \<Rightarrow> calls w @ [Close_call c] | None \<Rightarrow> calls w)"
  by (simp add: disconnect_def Let_def split: option.splits)

lemma connect_args: "args (snd (connect E w)) = args w"
  by (auto simp: connect_def dial_def Let_def split: option.splits sum.splits)

lemma connect_config: "config (snd (connect E w)) = config w"
  by (auto simp: connect_def dial_def Let_def split: option.splits sum.splits)

lemma configure_args: "args (configure E f ov w) = args w"
  by (simp add: configure_def Let_def)

lemma configure_conn:
  "clientConn (configure E f ov w) = clientConn w \<and> client (configure E f ov w) = client w
   \<and> calls (configure E f ov w) = calls w"
  by (simp add: configure_def Let_def)

lemma labelCase_Continue:
  assumes "labelCase X E s = Continue s'"
  shows "\<not> Oneshot (args (worker s)) \<and> args (worker s') = args (worker s) \<and>
         config (worker s') = config (worker s) \<and>
         client (worker s') = client (worker s) \<and>
         clientConn (worker s') = clientConn (worker s) \<and>
         labelTrigger s' =
           (if 0 < SleepInterval (args (worker s)) then Some (SleepInterval (args (worker s)))
            else None)"
  using assms
  by (auto simp: labelCase_def Let_def split: option.splits if_splits)

lemma watchCase_Continue:
  assumes "watchCase E n s = Continue s'"
  shows "worker s' = worker s \<and> labelTrigger s' = labelTrigger s"
  using assms
  by (auto simp: watchCase_def Let_def split: option.splits if_splits prod.splits)

lemma configCase_Continue:
  assumes "configCase E s = Continue s'"
  shows "args (worker s') = args (worker s) \<and> labelTrigger s' = Some 0"
  using assms connect_args [of E "configure E (configFilePath (worker s)) (Options (args (worker s))) (worker s)"]
  by (auto simp: configCase_def Let_def disconnect_args configure_args
      split: option.splits if_splits prod.splits)





lemma loop_step_dry_run_inv:
  assumes "NoPublish (Core (config (worker s))) \<longrightarrow>
             client (worker s) = None \<and> clientConn (worker s) = None"
    and "loop_step X E ev s = Continue s'"
  shows "NoPublish (Core (config (worker s'))) \<longrightarrow>
           client (worker s') = None \<and> clientConn (worker s') = None"
proof (cases ev)
  case LabelTimer
  with assms(2) have "labelCase X E s = Continue s'"
    by (auto simp: loop_step_def split: if_splits)
  with labelCase_Continue [of X E s s'] assms(1) show ?thesis by simp
next
  case (WatchEvent n)
  with assms(2) have "watchCase E n s = Continue s'" by (simp add: loop_step_def)
  with watchCase_Continue [of E n s s'] assms(1) show ?thesis by simp
next
  case (WatchError e)
  with assms show ?thesis by (simp add: loop_step_def)
next
  case ConfigTimer
  let ?w = "configure E (configFilePath (worker s)) (Options (args (worker s))) (worker s)"
  from ConfigTimer assms(2) have c: "configCase E s = Continue s'"
    by (auto simp: loop_step_def split: if_splits)
  show ?thesis
  proof (cases "NoPublish (Core (config ?w))")
    case True
    with c have "worker s' = disconnect ?w" by (auto simp: configCase_def Let_def)
    then show ?thesis by (simp add: disconnect_conn)
  next
    case False
    with c connect_config [of E ?w] have "config (worker s') = config ?w"
      by (auto simp: configCase_def Let_def split: if_splits prod.splits option.splits)
    with False show ?thesis by simp
  qed
qed

lemma loop_dry_run_inv:
  assumes "NoPublish (Core (config (worker s))) \<longrightarrow>
             client (worker s) = None \<and> clientConn (worker s) = None"
    and "loop X schedule s = Continue s'"
  shows "NoPublish (Core (config (worker s'))) \<longrightarrow>
           client (worker s') = None \<and> clientConn (worker s') = None"
  using assms
proof (induction schedule arbitrary: s)
  case Nil
  then show ?case by simp
next
  case (Cons p schedule)
  obtain E ev where p: "p = (E, ev)" by (cases p)
  show ?case
  proof (cases "loop_step X E ev s")
    case (Continue s1)
    with Cons.prems(2) have l: "loop X schedule s1 = Continue s'" by (simp add: p)
    from loop_step_dry_run_inv [OF Cons.prems(1) Continue]
    show ?thesis using Cons.IH [OF _ l] by blast
  next
    case (Return err w)
    with Cons.prems(2) show ?thesis by (simp add: p)
  next
    case NotReady
    with Cons.prems(2) have "loop X schedule s = Continue s'" by (simp add: p)
    with Cons.IH [OF Cons.prems(1)] show ?thesis by blast
  qed
qed

lemma Run_dry_run_inv:
  assumes "Run X E0 schedule w0 = Continue s"
    and "client w0 = None" and "clientConn w0 = None"
  shows "NoPublish (Core (config (worker s))) \<longrightarrow>
           client (worker s) = None \<and> clientConn (worker s) = None"
proof -
  let ?w = "configure E0 (configFilePath w0) (Options (args w0)) w0"
  obtain paths' where a: "addConfigWatch E0 (configFilePath w0) = (paths', None)"
    using assms(1) by (cases "addConfigWatch E0 (configFilePath w0)")
      (auto simp: Run_def split: option.splits)
  obtain w1 where c: "connect E0 ?w = (None, w1)"
    using assms(1) a by (cases "connect E0 ?w")
      (auto simp: Run_def Let_def split: option.splits)
  let ?s0 = "\<lparr>worker = w1, labelTrigger = Some 0, configTrigger = None, paths = paths'\<rparr>"
  from assms(1) a c have l: "loop X schedule ?s0 = Continue s"
    by (simp add: Run_def Let_def)
  have w: "client ?w = None \<and> clientConn ?w = None"
    using assms(2,3) by (simp add: configure_conn)
  have "NoPublish (Core (config w1)) \<longrightarrow> client w1 = None \<and> clientConn w1 = None"
  proof
    assume "NoPublish (Core (config w1))"
    with connect_config [of E0 ?w] c have "NoPublish (Core (config ?w))" by simp
    with c have "w1 = ?w" by (simp add: connect_def)
    with w show "client w1 = None \<and> clientConn w1 = None" by simp
  qed
  then have "NoPublish (Core (config (worker ?s0))) \<longrightarrow>
               client (worker ?s0) = None \<and> clientConn (worker ?s0) = None" by simp
  from loop_dry_run_inv [OF this l] show ?thesis .
qed

lemma labelCase_no_client:
  assumes "client (worker s) = None" and "clientConn (worker s) = None"
  shows "case labelCase X E s of
           Continue s' \<Rightarrow> calls (worker s') = calls (worker s)
         | Return err w' \<Rightarrow> calls w' = calls (worker s)
         | NotReady \<Rightarrow> True"
  using assms by (simp add: labelCase_def Let_def disconnect_calls)

lemma configCase_dry_run:
  assumes "NoPublish (Core (config (configure E (configFilePath (worker s))
             (Options (args (worker s))) (worker s))))"
  shows "\<exists>s'. configCase E s = Continue s' \<and> NoPublish (Core (config (worker s'))) \<and>
           clientConn (worker s') = None \<and> client (worker s') = None \<and>
           calls (worker s') =
             (case clientConn (worker s) of
                Some c \<Rightarrow> calls (worker s) @ [Close_call c]
              | None \<Rightarrow> calls (worker s))"
  using assms
  by (simp add: configCase_def Let_def disconnect_conn disconnect_config disconnect_calls
      configure_conn split: option.splits)

lemma configure_forced:
  "NoPublish_arg (args w) = Some b \<Longrightarrow> NoPublish (Core (config (configure E f ov w))) = b"
  by (simp add: configure_def Let_def)

lemma loop_step_forced_dry_run:
  assumes "NoPublish_arg (args (worker s)) = Some True"
    and "client (worker s) = None" and "clientConn (worker s) = None"
    and "loop_step X E ev s = Continue s'"
  shows "NoPublish_arg (args (worker s')) = Some True \<and> client (worker s') = None \<and>
         clientConn (worker s') = None \<and> calls (worker s') = calls (worker s)"
proof (cases ev)
  case LabelTimer
  with assms(4) have l: "labelCase X E s = Continue s'"
    by (auto simp: loop_step_def split: if_splits)
  from labelCase_no_client [OF assms(2,3), of X E] l
  have "calls (worker s') = calls (worker s)" by simp
  with labelCase_Continue [OF l] assms(1-3) show ?thesis by simp
next
  case (WatchEvent n)
  with assms(4) have "watchCase E n s = Continue s'" by (simp add: loop_step_def)
  with watchCase_Continue [of E n s s'] assms(1-3) show ?thesis by simp
next
  case (WatchError e)
  with assms show ?thesis by (simp add: loop_step_def)
next
  case ConfigTimer
  let ?w = "configure E (configFilePath (worker s)) (Options (args (worker s))) (worker s)"
  from ConfigTimer assms(4) have c: "configCase E s = Continue s'"
    by (auto simp: loop_step_def split: if_splits)
  have dry: "NoPublish (Core (config ?w))" using assms(1) by (simp add: configure_forced)
  from configCase_dry_run [OF dry] c assms(3)
  have "clientConn (worker s') = None \<and> client (worker s') = None \<and>
        calls (worker s') = calls (worker s)" by auto
  with configCase_Continue [OF c] assms(1) show ?thesis by simp
qed

lemma loop_forced_dry_run:
  assumes "NoPublish_arg (args (worker s)) = Some True"
    and "client (worker s) = None" and "clientConn (worker s) = None"
    and "loop X schedule s = Continue s'"
  shows "calls (worker s') = calls (worker s)"
  using assms
proof (induction schedule arbitrary: s)
  case Nil
  then show ?case by simp
next
  case (Cons p schedule)
  obtain E ev where p: "p = (E, ev)" by (cases p)
  show ?case
  proof (cases "loop_step X E ev s")
    case (Continue s1)
    with Cons.prems(4) have l: "loop X schedule s1 = Continue s'" by (simp add: p)
    from loop_step_forced_dry_run [OF Cons.prems(1-3) Continue]
    have s1: "NoPublish_arg (args (worker s1)) = Some True" "client (worker s1) = None"
      "clientConn (worker s1) = None" and c: "calls (worker s1) = calls (worker s)"
      by simp_all
    from Cons.IH [OF s1 l] c show ?thesis by simp
  next
    case (Return err w)
    with Cons.prems(4) show ?thesis by (simp add: p)
  next
    case NotReady
    with Cons.prems(4) have "loop X schedule s = Continue s'" by (simp add: p)
    from Cons.IH [OF Cons.prems(1-3) this] show ?thesis .
  qed
qed

lemma Run_forced_dry_run:
  assumes "Run X E0 schedule w0 = Continue s"
    and "client w0 = None" and "clientConn w0 = None"
    and "NoPublish_arg (args w0) = Some True"
  shows "calls (worker s) = calls w0"
proof -
  let ?w = "configure E0 (configFilePath w0) (Options (args w0)) w0"
  obtain paths' where a: "addConfigWatch E0 (configFilePath w0) = (paths', None)"
    using assms(1) by (cases "addConfigWatch E0 (configFilePath w0)")
      (auto simp: Run_def split: option.splits)
  have dry: "NoPublish (Core (config ?w))" using assms(4) by (simp add: configure_forced)
  then have c: "connect E0 ?w = (None, ?w)" by (simp add: connect_def)
  let ?s0 = "\<lparr>worker = ?w, labelTrigger = Some 0, configTrigger = None, paths = paths'\<rparr>"
  from assms(1) a c have l: "loop X schedule ?s0 = Continue s"
    by (simp add: Run_def Let_def)
  have "NoPublish_arg (args (worker ?s0)) = Some True" "client (worker ?s0) = None"
    "clientConn (worker ?s0) = None"
    using assms(2-4) by (simp_all add: configure_args configure_conn)
  from loop_forced_dry_run [OF this l] show ?thesis by (simp add: configure_conn)
qed

text \<open>
  C7. Take a state of the loop that \<^verbatim>\<open>Run\<close> reaches, on any schedule, from a worker
  without connection. If the configuration of that state has \<^verbatim>\<open>NoPublish\<close> set, the
  worker has neither client nor connection, and a labeling turn from that state makes
  no call at all (no \<^verbatim>\<open>SetLabels\<close>). If the debounce timer is set and the
  configuration read next has \<^verbatim>\<open>NoPublish\<close> set, the reconfiguration turn goes on with
  neither client nor connection, having closed the connection there was. If the worker
  was started with the flag \<^verbatim>\<open>NoPublish\<close> of its arguments set to true, no call has been
  made at all on the way to that state.
\<close>

theorem dry_run_makes_no_report:
  assumes "Run X E0 schedule w0 = Continue s"
    and "client w0 = None" and "clientConn w0 = None"
  shows "(NoPublish (Core (config (worker s))) \<longrightarrow>
            client (worker s) = None \<and> clientConn (worker s) = None \<and>
            (case loop_step X E LabelTimer s of
               Continue s' \<Rightarrow> calls (worker s') = calls (worker s)
             | Return err w' \<Rightarrow> calls w' = calls (worker s)
             | NotReady \<Rightarrow> True)) \<and>
         (configTrigger s \<noteq> None \<and>
          NoPublish (Core (config (configure E (configFilePath (worker s))
             (Options (args (worker s))) (worker s)))) \<longrightarrow>
            (\<exists>s'. loop_step X E ConfigTimer s = Continue s' \<and>
               NoPublish (Core (config (worker s'))) \<and>
               clientConn (worker s') = None \<and> client (worker s') = None \<and>
               calls (worker s') =
                 (case clientConn (worker s) of
                    Some c \<Rightarrow> calls (worker s) @ [Close_call c]
                  | None \<Rightarrow> calls (worker s)))) \<and>
         (NoPublish_arg (args w0) = Some True \<longrightarrow> calls (worker s) = calls w0)"
proof (intro conjI impI)
  assume dry: "NoPublish (Core (config (worker s)))"
  with Run_dry_run_inv [OF assms] show "client (worker s) = None" by simp
  from dry Run_dry_run_inv [OF assms] show "clientConn (worker s) = None" by simp
  from dry Run_dry_run_inv [OF assms]
  have "client (worker s) = None" and "clientConn (worker s) = None" by simp_all
  from labelCase_no_client [OF this, of X E]
  show "case loop_step X E LabelTimer s of
               Continue s' \<Rightarrow> calls (worker s') = calls (worker s)
             | Return err w' \<Rightarrow> calls w' = calls (worker s)
             | NotReady \<Rightarrow> True"
    by (simp add: loop_step_def)
next
  assume "configTrigger s \<noteq> None \<and>
          NoPublish (Core (config (configure E (configFilePath (worker s))
             (Options (args (worker s))) (worker s))))"
  then show "\<exists>s'. loop_step X E ConfigTimer s = Continue s' \<and>
               NoPublish (Core (config (worker s'))) \<and>
               clientConn (worker s') = None \<and> client (worker s') = None \<and>
               calls (worker s') =
                 (case clientConn (worker s) of
                    Some c \<Rightarrow> calls (worker s) @ [Close_call c]
                  | None \<Rightarrow> calls (worker s))"
    using configCase_dry_run [of E s] by (simp add: loop_step_def)
next
  assume "NoPublish_arg (args w0) = Some True"
  with assms show "calls (worker s) = calls w0" by (rule Run_forced_dry_run)
qed

theorem dry_run_makes_no_report_witness:
  "let X = \<lparr>IsQualifiedName = (\<lambda>n. []), IsValidLabelValue = (\<lambda>x. []),
             Sprintf_v = (\<lambda>x::string. x)\<rparr>;
       P = \<lparr>new_Source = (\<lambda>t. \<lparr>stype = t,
                  Name = (if t = local_Source then ''local'' else ''other''),
                  Discover = (\<lambda>w::unit. (Features [] :: string discovery))\<rparr>),
             filepath_Clean = (\<lambda>p. p), TrimSpace = (\<lambda>n. n),
             Compile = (\<lambda>p. Inr (\<lambda>n. True))\<rparr>;
       a = \<lparr>LabelWhiteList = [], CaFile = [], CertFile = [], KeyFile = [],
             ConfigFile = ''/etc/nfd-worker.conf'', Options = [], Oneshot = False,
             Server = ''nfd-master:8080'', ServerNameOverride = [], SleepInterval = 60000000000,
             Sources = [''local''], NoPublish_arg = None\<rparr>;
       w0 = (fst (fst (NewNfdWorker P a)) :: (unit, string, unit) nfdWorker);
       E0 = \<lparr>ReadFile = (\<lambda>p. Inl ''no such file''), LoadX509KeyPair = (\<lambda>c k. None),
              AppendCertsFromPEM = (\<lambda>p. True),
              yaml_Unmarshal = (\<lambda>d (c::unit NFDConfig). (c, None)),
              NewConfig = (\<lambda>s::(unit, string) FeatureSource. ()),
              DialContext = (\<lambda>a t. Inr 1),
              SetLabels = (\<lambda>c l. None), addConfigWatch = (\<lambda>p. ({p}, None)),
              Clean = (\<lambda>p. p), node = ()\<rparr>;
       E1 = E0\<lparr>yaml_Unmarshal := (\<lambda>d c. (c\<lparr>Core := \<lparr>NoPublish = True\<rparr>\<rparr>, None))\<rparr>
   in (\<exists>s. Run X E0 [(E1, WatchEvent ''/etc/nfd-worker.conf'')] w0 = Continue s \<and>
         clientConn (worker s) = Some 1 \<and>
         (\<exists>s'. loop_step X E1 ConfigTimer s = Continue s' \<and>
            clientConn (worker s') = None \<and> client (worker s') = None \<and>
            calls (worker s') = [DialContext_call ''nfd-master:8080'' False, Close_call 1])) \<and>
      (\<exists>s. Run X E0 [(E1, WatchEvent ''/etc/nfd-worker.conf''), (E1, ConfigTimer)] w0
              = Continue s \<and>
         NoPublish (Core (config (worker s))) \<and>
         (\<exists>s'. loop_step X E1 LabelTimer s = Continue s' \<and>
            calls (worker s') = [DialContext_call ''nfd-master:8080'' False, Close_call 1])) \<and>
      (\<exists>s. Run X E0 [(E0, LabelTimer), (E0, WatchEvent ''/etc/nfd-worker.conf''),
                        (E0, ConfigTimer), (E0, LabelTimer)]
              (fst (fst (NewNfdWorker P (a\<lparr>NoPublish_arg := Some True\<rparr>)))) = Continue s \<and>
         calls (worker s) = [])"
proof -
  let ?X = "\<lparr>IsQualifiedName = (\<lambda>n. []), IsValidLabelValue = (\<lambda>x. []),
             Sprintf_v = (\<lambda>x::string. x)\<rparr>"
  let ?P = "\<lparr>new_Source = (\<lambda>t. \<lparr>stype = t,
                  Name = (if t = local_Source then ''local'' else ''other''),
                  Discover = (\<lambda>w::unit. (Features [] :: string discovery))\<rparr>),
             filepath_Clean = (\<lambda>p. p), TrimSpace = (\<lambda>n. n),
             Compile = (\<lambda>p. Inr (\<lambda>n. True))\<rparr>"
  let ?a = "\<lparr>LabelWhiteList = [], CaFile = [], CertFile = [], KeyFile = [],
             ConfigFile = ''/etc/nfd-worker.conf'', Options = [], Oneshot = False,
             Server = ''nfd-master:8080'', ServerNameOverride = [], SleepInterval = 60000000000,
             Sources = [''local''], NoPublish_arg = None\<rparr>"
  let ?w0 = "fst (fst (NewNfdWorker ?P ?a)) :: (unit, string, unit) nfdWorker"
  let ?E0 = "\<lparr>ReadFile = (\<lambda>p. Inl ''no such file''), LoadX509KeyPair = (\<lambda>c k. None),
              AppendCertsFromPEM = (\<lambda>p. True),
              yaml_Unmarshal = (\<lambda>d (c::unit NFDConfig). (c, None)),
              NewConfig = (\<lambda>s::(unit, string) FeatureSource. ()),
              DialContext = (\<lambda>a t. Inr 1),
              SetLabels = (\<lambda>c l. None), addConfigWatch = (\<lambda>p. ({p}, None)),
              Clean = (\<lambda>p. p), node = ()\<rparr>"
  let ?E1 = "?E0\<lparr>yaml_Unmarshal := (\<lambda>d c. (c\<lparr>Core := \<lparr>NoPublish = True\<rparr>\<rparr>, None))\<rparr>"
  let ?A = "[(?E1, WatchEvent ''/etc/nfd-worker.conf'')]"
  let ?B = "[(?E1, WatchEvent ''/etc/nfd-worker.conf''), (?E1, ConfigTimer)]"
  have w0: "client ?w0 = None" "clientConn ?w0 = None"
    by (simp_all add: NewNfdWorker_def Let_def allSources_def)
  have "\<exists>s. Run ?X ?E0 ?A ?w0 = Continue s"
    by (simp add: worker_defs NewNfdWorker_def allSources_def)
  then obtain sA where rA: "Run ?X ?E0 ?A ?w0 = Continue sA" ..
  then have fA: "clientConn (worker sA) = Some 1"
    "calls (worker sA) = [DialContext_call ''nfd-master:8080'' False]"
    "configTrigger sA \<noteq> None \<and>
     NoPublish (Core (config (configure ?E1 (configFilePath (worker sA))
        (Options (args (worker sA))) (worker sA))))"
    by (auto simp: worker_defs NewNfdWorker_def allSources_def)
  from dry_run_makes_no_report [OF rA w0, of ?E1] fA
  have partA: "\<exists>s'. loop_step ?X ?E1 ConfigTimer sA = Continue s' \<and>
            clientConn (worker s') = None \<and> client (worker s') = None \<and>
            calls (worker s') = [DialContext_call ''nfd-master:8080'' False, Close_call 1]"
    by auto
  have "\<exists>s. Run ?X ?E0 ?B ?w0 = Continue s"
    by (simp add: worker_defs NewNfdWorker_def allSources_def)
  then obtain sB where rB: "Run ?X ?E0 ?B ?w0 = Continue sB" ..
  then have fB: "NoPublish (Core (config (worker sB)))"
    "calls (worker sB) = [DialContext_call ''nfd-master:8080'' False, Close_call 1]"
    "\<exists>s'. loop_step ?X ?E1 LabelTimer sB = Continue s'"
    by (auto simp: worker_defs NewNfdWorker_def allSources_def)
  from dry_run_makes_no_report [OF rB w0, of ?E1] fB
  have partB: "\<exists>s'. loop_step ?X ?E1 LabelTimer sB = Continue s' \<and>
            calls (worker s') = [DialContext_call ''nfd-master:8080'' False, Close_call 1]"
    by auto
  let ?w1 = "fst (fst (NewNfdWorker ?P (?a\<lparr>NoPublish_arg := Some True\<rparr>)))
               :: (unit, string, unit) nfdWorker"
  let ?C = "[(?E0, LabelTimer), (?E0, WatchEvent ''/etc/nfd-worker.conf''),
             (?E0, ConfigTimer), (?E0, LabelTimer)]"
  have w1: "client ?w1 = None" "clientConn ?w1 = None"
    "NoPublish_arg (args ?w1) = Some True" "calls ?w1 = []"
    by (simp_all add: NewNfdWorker_def Let_def allSources_def)
  have "\<exists>s. Run ?X ?E0 ?C ?w1 = Continue s"
    by (simp add: worker_defs NewNfdWorker_def allSources_def createFeatureLabels_def)
  then obtain sC where rC: "Run ?X ?E0 ?C ?w1 = Continue sC" ..
  from dry_run_makes_no_report [OF rC w1(1,2), of ?E0] w1(3,4)
  have partC: "calls (worker sC) = []" by simp
  from rA fA(1) partA rB fB(1) partB rC partC show ?thesis unfolding Let_def by blast
qed

end
